theory Spec2Isabelle
  imports Main "HOL-Library.AList"
begin

section \<open>py2toml: the objects the converter inspects\<close>

text \<open>
  The converter (src/py2toml.py) walks the tree that Python's \<open>ast.parse\<close> returns and
  probes it by attribute name and by class (\<open>isinstance\<close>). The model keeps that
  dynamic view: an object is an AST node (its class name and its fields, in the order of
  the class's \<open>_fields\<close>), a list, or one of the constants a literal can denote.
  A \<open>char\<close> stands for the code point of the same number, so a \<open>string\<close> is a
  Python \<open>str\<close> over the code points below 256.
  \<open>Other t r\<close> is any other constant (a float, a complex number, \<open>Ellipsis\<close>):
  the converter only tests its truth value \<open>t\<close> and formats it (\<open>r\<close>, its repr).
\<close>

datatype obj =
    Node string "(string \<times> obj) list"
  | ListO "obj list"
  | Str string
  | Bytes string
  | IntO int
  | BoolO bool
  | NoneO
  | Other bool string

datatype error =
    AttributeError
  | TypeError
  | KeyError
  | UnboundLocalError
  | SyntaxError
  | OSError

text \<open>Sequencing of steps that may raise: the first exception propagates.\<close>

definition and_then :: "error + 'a \<Rightarrow> ('a \<Rightarrow> error + 'b) \<Rightarrow> error + 'b" where
  "and_then m f = (case m of Inl e \<Rightarrow> Inl e | Inr x \<Rightarrow> f x)"

fun map_err :: "('a \<Rightarrow> error + 'b) \<Rightarrow> 'a list \<Rightarrow> error + 'b list" where
  "map_err f [] = Inr []"
| "map_err f (x # xs) =
     (case f x of Inl e \<Rightarrow> Inl e
      | Inr y \<Rightarrow> (case map_err f xs of Inl e \<Rightarrow> Inl e | Inr ys \<Rightarrow> Inr (y # ys)))"

subsection \<open>Attribute access, class tests, iteration\<close>

text \<open>
  \<open>getattr\<close> is used for the names \<open>func\<close>, \<open>id\<close>, \<open>attr\<close>, \<open>keywords\<close>,
  \<open>arg\<close>, \<open>value\<close> and \<open>elts\<close> only; no str, bytes, number, list or None has
  such an attribute.
\<close>

fun getattr :: "obj \<Rightarrow> string \<Rightarrow> error + obj" where
  "getattr (Node c fs) a = (case map_of fs a of Some v \<Rightarrow> Inr v | None \<Rightarrow> Inl AttributeError)"
| "getattr _ a = Inl AttributeError"

fun isinstance :: "obj \<Rightarrow> string \<Rightarrow> bool" where
  "isinstance (Node c fs) cls = (c = cls)"
| "isinstance _ cls = False"

fun is_node :: "obj \<Rightarrow> bool" where
  "is_node (Node c fs) = True"
| "is_node _ = False"

text \<open>\<open>for x in o\<close>: a list gives its items, a str its characters, bytes its byte values.\<close>

fun py_iter :: "obj \<Rightarrow> error + obj list" where
  "py_iter (ListO xs) = Inr xs"
| "py_iter (Str s) = Inr (map (\<lambda>c. Str [c]) s)"
| "py_iter (Bytes b) = Inr (map (\<lambda>c. IntO (of_char c)) b)"
| "py_iter _ = Inl TypeError"

fun truthy :: "obj \<Rightarrow> bool" where
  "truthy (Node c fs) = True"
| "truthy (ListO xs) = (xs \<noteq> [])"
| "truthy (Str s) = (s \<noteq> [])"
| "truthy (Bytes b) = (b \<noteq> [])"
| "truthy (IntO i) = (i \<noteq> 0)"
| "truthy (BoolO b) = b"
| "truthy NoneO = False"
| "truthy (Other t r) = t"

subsection \<open>The str and bytes methods the converter calls\<close>

text \<open>\<open>str.isspace\<close> on the code points below 256, and the ASCII whitespace of bytes.\<close>

definition isspace :: "char \<Rightarrow> bool" where
  "isspace c = (c \<in> set [CHR 0x09, CHR 0x0A, CHR 0x0B, CHR 0x0C, CHR 0x0D,
                          CHR 0x1C, CHR 0x1D, CHR 0x1E, CHR 0x1F, CHR 0x20,
                          CHR 0x85, CHR 0xA0])"

definition isspace_bytes :: "char \<Rightarrow> bool" where
  "isspace_bytes c = (c \<in> set [CHR 0x09, CHR 0x0A, CHR 0x0B, CHR 0x0C, CHR 0x0D, CHR 0x20])"

definition strip :: "string \<Rightarrow> string" where
  "strip s = rev (dropWhile isspace (rev (dropWhile isspace s)))"

definition strip_bytes :: "string \<Rightarrow> string" where
  "strip_bytes s = rev (dropWhile isspace_bytes (rev (dropWhile isspace_bytes s)))"

text \<open>\<open>s.split(sep)\<close> for a one-character separator: empty segments are kept.\<close>

fun split_on :: "char \<Rightarrow> string \<Rightarrow> string list" where
  "split_on sep [] = [[]]"
| "split_on sep (c # cs) =
     (if c = sep then [] # split_on sep cs
      else (case split_on sep cs of [] \<Rightarrow> [[c]] | w # ws \<Rightarrow> (c # w) # ws))"

text \<open>\<open>s.split()\<close>: the maximal runs of non-whitespace characters.\<close>

fun split_ws :: "string \<Rightarrow> string list" where
  "split_ws [] = []"
| "split_ws (c # cs) =
     (if isspace c then split_ws cs
      else (case cs of
              [] \<Rightarrow> [[c]]
            | d # ds \<Rightarrow>
                if isspace d then [c] # split_ws cs
                else (case split_ws cs of [] \<Rightarrow> [[c]] | w # ws \<Rightarrow> (c # w) # ws)))"

text \<open>\<open>sep.join(xs)\<close>.\<close>

fun join :: "string \<Rightarrow> string list \<Rightarrow> string" where
  "join sep [] = []"
| "join sep [x] = x"
| "join sep (x # y # ys) = x @ sep @ join sep (y # ys)"

text \<open>\<open>o.strip()\<close>: str and bytes have the method, nothing else the tree holds does.\<close>

fun py_strip :: "obj \<Rightarrow> error + obj" where
  "py_strip (Str s) = Inr (Str (strip s))"
| "py_strip (Bytes b) = Inr (Bytes (strip_bytes b))"
| "py_strip _ = Inl AttributeError"

text \<open>
  \<open>o.split(",")\<close>: bytes has \<open>split\<close> but refuses a str separator (TypeError);
  any other object but a str has no such method.
\<close>

fun py_split_comma :: "obj \<Rightarrow> error + obj list" where
  "py_split_comma (Str s) = Inr (map Str (split_on CHR '','' s))"
| "py_split_comma (Bytes b) = Inl TypeError"
| "py_split_comma _ = Inl AttributeError"

subsection \<open>The node classes named in this development\<close>

text \<open>
  The nodes \<open>ast.parse\<close> builds for the classes below, with the fields of their
  \<open>_fields\<close> in order. Any other class is written with \<open>Node\<close> directly.
\<close>

definition ast_Load :: obj where
  "ast_Load = Node ''Load'' []"

definition ast_Constant :: "obj \<Rightarrow> obj" where
  "ast_Constant v = Node ''Constant'' [(''value'', v), (''kind'', NoneO)]"

definition ast_Name :: "string \<Rightarrow> obj" where
  "ast_Name ident = Node ''Name'' [(''id'', Str ident), (''ctx'', ast_Load)]"

definition ast_List :: "obj list \<Rightarrow> obj" where
  "ast_List elts = Node ''List'' [(''elts'', ListO elts), (''ctx'', ast_Load)]"

definition ast_Tuple :: "obj list \<Rightarrow> obj" where
  "ast_Tuple elts = Node ''Tuple'' [(''elts'', ListO elts), (''ctx'', ast_Load)]"

definition ast_Attribute :: "obj \<Rightarrow> string \<Rightarrow> obj" where
  "ast_Attribute v a = Node ''Attribute'' [(''value'', v), (''attr'', Str a), (''ctx'', ast_Load)]"

definition ast_Subscript :: "obj \<Rightarrow> obj \<Rightarrow> obj" where
  "ast_Subscript v sl = Node ''Subscript'' [(''value'', v), (''slice'', sl), (''ctx'', ast_Load)]"

definition ast_keyword :: "obj \<Rightarrow> obj \<Rightarrow> obj" where
  "ast_keyword a v = Node ''keyword'' [(''arg'', a), (''value'', v)]"

definition ast_Call :: "obj \<Rightarrow> obj list \<Rightarrow> obj list \<Rightarrow> obj" where
  "ast_Call f args kws = Node ''Call'' [(''func'', f), (''args'', ListO args), (''keywords'', ListO kws)]"

definition ast_Expr :: "obj \<Rightarrow> obj" where
  "ast_Expr v = Node ''Expr'' [(''value'', v)]"

definition ast_Module :: "obj list \<Rightarrow> obj" where
  "ast_Module body = Node ''Module'' [(''body'', ListO body), (''type_ignores'', ListO [])]"

section \<open>The Metadata Extractor\<close>

text \<open>
  What \<open>print\<close> receives, one constructor for each call of it in the source, with the
  values its message formats.
\<close>

datatype diag =
    KeywordNotStr obj
  | AddingList string obj
  | AddingConstant string obj
  | AddingName string obj
  | AuthorCountMismatch
  | MetadataDump "(string \<times> obj) list"
  | SetupNotFound
  | Usage
  | ConversionComplete string

text \<open>
  The variables of \<open>extract_metadata_from_setup\<close> that live across iterations of its
  loop: the dictionary \<open>metadata\<close> (keys in insertion order), the local \<open>value\<close>
  (unbound until a branch assigns it), and what has been printed.
\<close>

record extractor_state =
  metadata :: "(string \<times> obj) list"
  value_var :: "obj option"
  printed :: "diag list"

definition assign_value :: "extractor_state \<Rightarrow> obj \<Rightarrow> extractor_state" where
  "assign_value st v = st\<lparr>value_var := Some v\<rparr>"

definition print_diag :: "extractor_state \<Rightarrow> diag \<Rightarrow> extractor_state" where
  "print_diag st d = st\<lparr>printed := printed st @ [d]\<rparr>"

text \<open>Lines 36 to 43 of the source: the value of a \<open>keywords\<close> argument.\<close>

definition keywords_value :: "obj \<Rightarrow> error + obj" where
  "keywords_value kvv =
     and_then
       (case kvv of
          Str s \<Rightarrow>
            (let keywords = split_on CHR '','' s;
                 keywords = (if length keywords = 1 then split_ws s else keywords)
             in Inr (map (\<lambda>k. Str (strip k)) keywords))
        | _ \<Rightarrow> py_iter kvv)
       (\<lambda>keywords. and_then (map_err py_strip keywords) (\<lambda>value. Inr (ListO value)))"

text \<open>
  Lines 32 to 58: the \<open>elif\<close> chain for a keyword whose name \<open>a\<close> is a str. The chain
  has no final \<open>else\<close>: when no branch matches, \<open>value\<close> keeps what it held.
\<close>

definition classify :: "extractor_state \<Rightarrow> string \<Rightarrow> obj \<Rightarrow> error + extractor_state" where
  "classify st a keyword =
     and_then (getattr keyword ''value'') (\<lambda>kv.
       if a = ''author'' \<or> a = ''author_email'' then
         and_then (getattr kv ''value'') (\<lambda>kvv.
         and_then (py_split_comma kvv) (\<lambda>parts.
         and_then (map_err py_strip parts) (\<lambda>value.
           Inr (print_diag (assign_value st (ListO value)) (AddingList a (ListO value))))))
       else if a = ''keywords'' then
         and_then (getattr kv ''value'') (\<lambda>kvv.
         and_then (keywords_value kvv) (\<lambda>value.
           Inr (print_diag (assign_value st value) (AddingList a value))))
       else if isinstance kv ''Constant'' then
         and_then (getattr kv ''value'') (\<lambda>kvv.
           Inr (assign_value (print_diag st (AddingConstant a kvv))
                  (case kvv of Str s \<Rightarrow> Str (join '' '' (split_ws s)) | _ \<Rightarrow> kvv)))
       else if isinstance kv ''List'' \<or> isinstance kv ''Tuple'' then
         and_then (getattr kv ''elts'') (\<lambda>elts.
         and_then (py_iter elts) (\<lambda>elts.
         and_then (map_err (\<lambda>elt. and_then (getattr elt ''value'') py_strip) elts) (\<lambda>value.
           Inr (print_diag (assign_value st (ListO value)) (AddingList a (ListO value))))))
       else if isinstance kv ''Name'' then
         and_then (getattr kv ''id'') (\<lambda>ident.
           Inr (assign_value (print_diag st (AddingName a ident)) ident))
       else Inr st)"

text \<open>
  Lines 29 to 60: one iteration. A keyword whose name is not a str (\<open>**kwargs\<close>) is
  reported and skipped by \<open>continue\<close>; every other keyword reaches line 60, which reads
  \<open>value\<close> whatever the chain did.
\<close>

definition loop_body :: "extractor_state \<Rightarrow> obj \<Rightarrow> error + extractor_state" where
  "loop_body st keyword =
     and_then (getattr keyword ''arg'') (\<lambda>arg.
       case arg of
         Str a \<Rightarrow>
           and_then (classify st a keyword) (\<lambda>st'.
             case value_var st' of
               None \<Rightarrow> Inl UnboundLocalError
             | Some v \<Rightarrow> Inr (st'\<lparr>metadata := AList.update a v (metadata st')\<rparr>))
       | _ \<Rightarrow> Inr (print_diag st (KeywordNotStr arg)))"

fun extract_loop :: "extractor_state \<Rightarrow> obj list \<Rightarrow> error + extractor_state" where
  "extract_loop st [] = Inr st"
| "extract_loop st (keyword # rest) =
     (case loop_body st keyword of Inl e \<Rightarrow> Inl e | Inr st' \<Rightarrow> extract_loop st' rest)"

text \<open>\<open>len(o)\<close> and \<open>metadata[k]\<close>.\<close>

fun py_len :: "obj \<Rightarrow> error + nat" where
  "py_len (ListO xs) = Inr (length xs)"
| "py_len (Str s) = Inr (length s)"
| "py_len (Bytes b) = Inr (length b)"
| "py_len _ = Inl TypeError"

definition subscript :: "(string \<times> obj) list \<Rightarrow> string \<Rightarrow> error + obj" where
  "subscript d k = (case map_of d k of None \<Rightarrow> Inl KeyError | Some v \<Rightarrow> Inr v)"

text \<open>
  \<open>f"{x}"\<close>: a str is inserted as it is, every other object as its repr. The repr
  of a list, of None and of a truth value is written out; the repr of a str, of bytes,
  of an integer and of a node is Python's own business and is the parameter \<open>rp\<close>
  of everything that formats.
\<close>

fun py_repr :: "(obj \<Rightarrow> string) \<Rightarrow> obj \<Rightarrow> string" where
  "py_repr rp (ListO xs) = ''['' @ join '', '' (map (py_repr rp) xs) @ '']''"
| "py_repr rp NoneO = ''None''"
| "py_repr rp (BoolO b) = (if b then ''True'' else ''False'')"
| "py_repr rp (Other t r) = r"
| "py_repr rp v = rp v"

definition format_value :: "(obj \<Rightarrow> string) \<Rightarrow> obj \<Rightarrow> string" where
  "format_value rp v = (case v of Str s \<Rightarrow> s | _ \<Rightarrow> py_repr rp v)"

text \<open>Lines 62 to 73: the Author/Email Merger.\<close>

definition merge_author_email ::
  "(obj \<Rightarrow> string) \<Rightarrow> extractor_state \<Rightarrow> error + extractor_state" where
  "merge_author_email rp st =
     (if map_of (metadata st) ''author_email'' \<noteq> None then
        and_then (subscript (metadata st) ''author'') (\<lambda>authors.
        and_then (subscript (metadata st) ''author_email'') (\<lambda>emails.
        and_then (py_len authors) (\<lambda>n.
        and_then (py_len emails) (\<lambda>m.
          if n \<noteq> m then Inr (print_diag st AuthorCountMismatch)
          else
            and_then (py_iter authors) (\<lambda>as.
            and_then (py_iter emails) (\<lambda>es.
              Inr (st\<lparr>metadata :=
                     AList.update ''author''
                       (ListO (map (\<lambda>(author, email).
                                 Str (format_value rp author @ '' <'' @ format_value rp email @ ''>''))
                               (zip as es)))
                       (metadata st)\<rparr>)))))))
      else Inr st)"

definition extract_metadata_from_setup ::
  "(obj \<Rightarrow> string) \<Rightarrow> obj \<Rightarrow> error + ((string \<times> obj) list \<times> diag list)" where
  "extract_metadata_from_setup rp setup_node =
     and_then (getattr setup_node ''keywords'') (\<lambda>kws.
     and_then (py_iter kws) (\<lambda>kws.
     and_then (extract_loop \<lparr>metadata = [], value_var = None, printed = []\<rparr> kws) (\<lambda>st.
     and_then (merge_author_email rp st) (\<lambda>st'.
       Inr (metadata st', printed st' @ [MetadataDump (metadata st')])))))"

text \<open>
  What has been printed when the extraction raises. The loop stops at its end or on entry
  to the iteration that raises: inside that iteration nothing is printed, since lines 34,
  44 and 55 print only once the value is computed, and lines 46 and 57 format their
  message, which is what can raise, before they print it. The merger raises (line 64)
  before it prints.
\<close>

fun extract_loop_stop :: "extractor_state \<Rightarrow> obj list \<Rightarrow> extractor_state" where
  "extract_loop_stop st [] = st"
| "extract_loop_stop st (keyword # rest) =
     (case loop_body st keyword of Inl e \<Rightarrow> st | Inr st' \<Rightarrow> extract_loop_stop st' rest)"

definition extract_printed :: "obj \<Rightarrow> diag list" where
  "extract_printed setup_node =
     (case and_then (getattr setup_node ''keywords'') py_iter of
        Inl e \<Rightarrow> []
      | Inr kws \<Rightarrow>
          printed (extract_loop_stop \<lparr>metadata = [], value_var = None, printed = []\<rparr> kws))"

section \<open>The Tree Walker\<close>

text \<open>
  \<open>ast.iter_child_nodes\<close>: the fields in order; a field that is a node is a child, and
  so is every node in a field that is a list.
\<close>

fun field_children :: "obj \<Rightarrow> obj list" where
  "field_children (Node c fs) = [Node c fs]"
| "field_children (ListO xs) = filter is_node xs"
| "field_children _ = []"

fun iter_child_nodes :: "obj \<Rightarrow> obj list" where
  "iter_child_nodes (Node c fs) = concat (map (\<lambda>f. field_children (snd f)) fs)"
| "iter_child_nodes _ = []"

text \<open>
  \<open>ast.walk\<close>: breadth first, from a queue that starts with the tree; the node taken
  from the left end is yielded and its children join the right end.
\<close>

function walk_queue :: "obj list \<Rightarrow> obj list" where
  "walk_queue [] = []"
| "walk_queue (node # todo) = node # walk_queue (todo @ iter_child_nodes node)"
  by pat_completeness auto
termination
proof (relation "measure (\<lambda>todo. sum_list (map (\<lambda>n. Suc (size n)) todo))")
  show "wf (measure (\<lambda>todo. sum_list (map (\<lambda>n. Suc (size n)) todo)))" by simp
next
  fix node :: obj and todo :: "obj list"
  have field: "sum_list (map (\<lambda>n. Suc (size n)) (field_children v)) \<le> Suc (size v)" for v
  proof (cases v)
    case (ListO xs)
    have "sum_list (map (\<lambda>n. Suc (size n)) (filter is_node xs)) \<le> size_list size xs"
      by (induction xs) auto
    with ListO show ?thesis by simp
  qed auto
  have "sum_list (map (\<lambda>n. Suc (size n)) (iter_child_nodes node)) \<le> size node"
  proof (cases node)
    case (Node c fs)
    have "sum_list (map (\<lambda>n. Suc (size n)) (concat (map (\<lambda>f. field_children (snd f)) fs)))
          \<le> size_list (size_prod (\<lambda>_. 0) size) fs"
    proof (induction fs)
      case Nil
      show ?case by simp
    next
      case (Cons f fs)
      obtain k v where f: "f = (k, v)" by (cases f)
      from Cons field [of v] show ?case by (simp add: f)
    qed
    with Node show ?thesis by simp
  qed auto
  then show "(todo @ iter_child_nodes node, node # todo)
        \<in> measure (\<lambda>todo. sum_list (map (\<lambda>n. Suc (size n)) todo))"
    by simp
qed

definition walk :: "obj \<Rightarrow> obj list" where
  "walk tree = walk_queue [tree]"

text \<open>
  Lines 16 to 19: the test of a call's callee. The handler of \<open>AttributeError\<close> reads
  \<open>node.func.attr\<close>, and what that raises is not handled.
\<close>

definition callee_is_setup :: "obj \<Rightarrow> error + bool" where
  "callee_is_setup node =
     (case and_then (getattr node ''func'') (\<lambda>func. getattr func ''id'') of
        Inr ident \<Rightarrow> Inr (ident = Str ''setup'')
      | Inl AttributeError \<Rightarrow>
          and_then (getattr node ''func'') (\<lambda>func.
          and_then (getattr func ''attr'') (\<lambda>attr. Inr (attr = Str ''setup'')))
      | Inl e \<Rightarrow> Inl e)"

fun find_setup_in :: "obj list \<Rightarrow> error + obj" where
  "find_setup_in [] = Inr NoneO"
| "find_setup_in (node # rest) =
     (if isinstance node ''Call'' then
        (case callee_is_setup node of
           Inl e \<Rightarrow> Inl e
         | Inr found \<Rightarrow> if found then Inr node else find_setup_in rest)
      else find_setup_in rest)"

definition find_setup_function :: "obj \<Rightarrow> error + obj" where
  "find_setup_function tree = find_setup_in (walk tree)"

text \<open>
  The file system: the contents of the files that can be opened for reading, and the
  paths that can be opened for writing (an existing directory, sufficient rights).
\<close>

record file_system =
  contents :: "string \<rightharpoonup> string"
  writable :: "string \<Rightarrow> bool"

text \<open>
  \<open>parse_setup_py\<close>. A path the file system holds no contents for cannot be opened.
  \<open>ast.parse\<close> is Python's parser, the parameter \<open>parse\<close>.
\<close>

definition parse_setup_py ::
  "(string \<Rightarrow> error + obj) \<Rightarrow> (obj \<Rightarrow> string) \<Rightarrow> file_system \<Rightarrow> string
   \<Rightarrow> error + ((string \<times> obj) list \<times> diag list)" where
  "parse_setup_py parse rp fs file_path =
     (case contents fs file_path of
        None \<Rightarrow> Inl OSError
      | Some setup_content \<Rightarrow>
          and_then (parse setup_content) (\<lambda>setup_info.
          and_then (find_setup_function setup_info) (\<lambda>setup_node.
            if truthy setup_node then extract_metadata_from_setup rp setup_node
            else Inr ([], [SetupNotFound]))))"

text \<open>What \<open>parse_setup_py\<close> has printed when it raises.\<close>

definition parse_setup_py_printed ::
  "(string \<Rightarrow> error + obj) \<Rightarrow> file_system \<Rightarrow> string \<Rightarrow> diag list" where
  "parse_setup_py_printed parse fs file_path =
     (case contents fs file_path of
        None \<Rightarrow> []
      | Some setup_content \<Rightarrow>
          (case and_then (parse setup_content) find_setup_function of
             Inl e \<Rightarrow> []
           | Inr setup_node \<Rightarrow>
               if truthy setup_node then extract_printed setup_node else [SetupNotFound]))"

section \<open>The Manifest Renderer\<close>

definition nl :: string where
  "nl = [CHR 0x0A]"

definition dict_get :: "(string \<times> obj) list \<Rightarrow> string \<Rightarrow> obj \<Rightarrow> obj" where
  "dict_get d k dflt = (case map_of d k of None \<Rightarrow> dflt | Some v \<Rightarrow> v)"

definition generate_dependency_section :: "(obj \<Rightarrow> string) \<Rightarrow> obj \<Rightarrow> error + string" where
  \<open>generate_dependency_section rp install_requires =
     and_then (py_iter install_requires) (\<lambda>reqs.
       Inr (join nl (map (\<lambda>req. format_value rp req @ '' = "*"'') reqs)))\<close>

text \<open>
  \<open>os.path.basename\<close> and \<open>os.path.splitext\<close> of posixpath: \<open>rfind\<close> is the last
  index of a character, or -1; the extension starts at the last dot of the last
  component, unless only dots precede it there.
\<close>

definition rfind :: "string \<Rightarrow> char \<Rightarrow> int" where
  "rfind p c = int (length p) - 1 - int (length (takeWhile (\<lambda>x. x \<noteq> c) (rev p)))"

definition basename :: "string \<Rightarrow> string" where
  "basename p = drop (nat (rfind p CHR ''/'' + 1)) p"

definition splitext :: "string \<Rightarrow> string \<times> string" where
  "splitext p =
     (let sepIndex = rfind p CHR ''/''; dotIndex = rfind p CHR ''.'' in
      if dotIndex > sepIndex
         \<and> list_ex (\<lambda>x. x \<noteq> CHR ''.'')
              (take (nat (dotIndex - (sepIndex + 1))) (drop (nat (sepIndex + 1)) p))
      then (take (nat dotIndex) p, drop (nat dotIndex) p)
      else (p, []))"

fun os_path_basename :: "obj \<Rightarrow> error + obj" where
  "os_path_basename (Str p) = Inr (Str (basename p))"
| "os_path_basename (Bytes p) = Inr (Bytes (basename p))"
| "os_path_basename _ = Inl TypeError"

fun os_path_splitext :: "obj \<Rightarrow> error + obj \<times> obj" where
  "os_path_splitext (Str p) = Inr (Str (fst (splitext p)), Str (snd (splitext p)))"
| "os_path_splitext (Bytes p) = Inr (Bytes (fst (splitext p)), Bytes (snd (splitext p)))"
| "os_path_splitext _ = Inl TypeError"

definition script_line :: "(obj \<Rightarrow> string) \<Rightarrow> obj \<Rightarrow> error + string" where
  \<open>script_line rp script =
     and_then (os_path_basename script) (\<lambda>base.
     and_then (os_path_splitext base) (\<lambda>parts.
       Inr (format_value rp (fst parts) @ '' = "'' @ format_value rp script
            @ ''.__main__:main"'')))\<close>

definition scripts_section :: "(obj \<Rightarrow> string) \<Rightarrow> obj \<Rightarrow> error + string" where
  "scripts_section rp scripts =
     and_then (py_iter scripts) (\<lambda>scripts.
     and_then (map_err (script_line rp) scripts) (\<lambda>lines. Inr (join nl lines)))"

text \<open>Lines 98 to 100: the value the template shows for \<open>classifiers\<close>.\<close>

definition render_classifiers :: "(obj \<Rightarrow> string) \<Rightarrow> (string \<times> obj) list \<Rightarrow> error + obj" where
  \<open>render_classifiers rp md =
     (let classifiers = dict_get md ''classifiers'' (ListO []) in
      if truthy classifiers then
        and_then (py_iter classifiers) (\<lambda>cs.
          Inr (Str (''['' @ nl
                    @ join nl (map (\<lambda>cls. ''    "'' @ format_value rp cls @ ''",'') cs)
                    @ nl @ '']'')))
      else Inr classifiers)\<close>

text \<open>Lines 102 to 123: the template, every line of it ending in a newline.\<close>

definition fill_template :: "(obj \<Rightarrow> string) \<Rightarrow> (string \<times> obj) list \<Rightarrow> error + string" where
  \<open>fill_template rp md =
     and_then (render_classifiers rp md) (\<lambda>classifiers.
     and_then (generate_dependency_section rp
                 (dict_get md ''install_requires'' (ListO []))) (\<lambda>deps.
     and_then (scripts_section rp (dict_get md ''scripts'' (ListO []))) (\<lambda>scripts.
       Inr (concat (map (\<lambda>line. line @ nl)
         [''[tool.poetry]'',
          ''name = "'' @ format_value rp (dict_get md ''name'' (Str [])) @ ''"'',
          ''version = "'' @ format_value rp (dict_get md ''version'' (Str [])) @ ''"'',
          ''description = "'' @ format_value rp (dict_get md ''description'' (Str []))
            @ ''"'',
          ''license = "'' @ format_value rp (dict_get md ''license'' (Str [])) @ ''"'',
          ''authors = '' @ format_value rp (dict_get md ''author'' (Str ''[]'')),
          ''readme = "README.md"'',
          ''repository = "'' @ format_value rp (dict_get md ''url'' (Str [])) @ ''"'',
          ''keywords = '' @ format_value rp (dict_get md ''keywords'' (Str ''[]'')),
          ''classifiers = '' @ format_value rp classifiers,
          [],
          ''[tool.poetry.dependencies]'',
          ''python = "''
            @ format_value rp (dict_get md ''python_requires'' (Str ''>=3.5'')) @ ''"'',
          deps,
          [],
          ''[tool.poetry.scripts]'',
          scripts,
          [],
          ''[build-system]'',
          ''requires = ["poetry-core"]'',
          ''build-backend = "poetry.core.masonry.api"''])))))\<close>

text \<open>
  \<open>s.replace(old, new)\<close>: from the left, each occurrence of \<open>old\<close> that starts where
  the scan stands is replaced and the scan goes on after it.
\<close>

function (sequential) str_replace :: "string \<Rightarrow> string \<Rightarrow> string \<Rightarrow> string" where
  "str_replace [] new s = new @ concat (map (\<lambda>c. c # new) s)"
| "str_replace old new [] = []"
| "str_replace old new (c # cs) =
     (if take (length old) (c # cs) = old
      then new @ str_replace old new (drop (length old) (c # cs))
      else c # str_replace old new cs)"
  by pat_completeness auto
termination
  by (relation "measure (\<lambda>(old, new, s). length s)") auto

definition generate_pyproject_toml ::
  "(obj \<Rightarrow> string) \<Rightarrow> (string \<times> obj) list \<Rightarrow> error + string" where
  "generate_pyproject_toml rp md =
     and_then (fill_template rp md) (\<lambda>pyproject_toml.
       Inr (str_replace (nl @ nl @ nl) (nl @ nl) pyproject_toml))"

section \<open>The Entry Point\<close>

text \<open>
  What a run does to the world: the messages it prints, the source file it opens and the
  file it writes, in order; how it ends; and the file system it leaves.
\<close>

datatype event =
    Printed diag
  | OpenedForReading string
  | Wrote string string

datatype outcome =
    Returned
  | Exited nat
  | Raised error

record run =
  events :: "event list"
  outcome :: outcome
  files :: file_system

text \<open>
  \<open>write_to_file\<close> and \<open>main\<close>. Opening the destination for writing raises OSError
  when the path is not writable, after everything the earlier stages printed.
\<close>

definition write_to_file :: "string \<Rightarrow> string \<Rightarrow> file_system \<Rightarrow> error + file_system" where
  "write_to_file content file_path fs =
     (if writable fs file_path then Inr (fs\<lparr>contents := (contents fs)(file_path \<mapsto> content)\<rparr>)
      else Inl OSError)"

definition main ::
  "(string \<Rightarrow> error + obj) \<Rightarrow> (obj \<Rightarrow> string) \<Rightarrow> file_system \<Rightarrow> string list \<Rightarrow> run" where
  "main parse rp fs argv =
     (if length argv \<noteq> 3 then
        \<lparr>events = [Printed Usage], outcome = Exited 1, files = fs\<rparr>
      else
        (let setup_file_path = argv ! 1; pyproject_toml_path = argv ! 2 in
         case parse_setup_py parse rp fs setup_file_path of
           Inl e \<Rightarrow>
             \<lparr>events = OpenedForReading setup_file_path
                        # map Printed (parse_setup_py_printed parse fs setup_file_path),
              outcome = Raised e, files = fs\<rparr>
         | Inr (md, out) \<Rightarrow>
             (case generate_pyproject_toml rp md of
                Inl e \<Rightarrow>
                  \<lparr>events = OpenedForReading setup_file_path # map Printed out,
                   outcome = Raised e, files = fs\<rparr>
              | Inr pyproject_toml_content \<Rightarrow>
                  (case write_to_file pyproject_toml_content pyproject_toml_path fs of
                     Inl e \<Rightarrow>
                       \<lparr>events = OpenedForReading setup_file_path # map Printed out,
                        outcome = Raised e, files = fs\<rparr>
                   | Inr fs' \<Rightarrow>
                       \<lparr>events = OpenedForReading setup_file_path # map Printed out
                                  @ [Wrote pyproject_toml_path pyproject_toml_content,
                                     Printed (ConversionComplete pyproject_toml_path)],
                        outcome = Returned, files = fs'\<rparr>))))"

section \<open>Reference definitions for the renderer's output\<close>

text \<open>
  The final step as the specification words it: one pass from left to right in which
  each occurrence of two consecutive blank lines (three newline characters) becomes one
  blank line (two newline characters); what the pass has written is not read again.
\<close>

fun collapse_pass :: "string \<Rightarrow> string" where
  "collapse_pass (a # b # c # rest) =
     (if a = CHR 0x0A \<and> b = CHR 0x0A \<and> c = CHR 0x0A
      then CHR 0x0A # CHR 0x0A # collapse_pass rest
      else a # collapse_pass (b # c # rest))"
| "collapse_pass s = s"

text \<open>The manifest of a mapping with no field: every scalar field at its default.\<close>

definition empty_manifest :: string where
  \<open>empty_manifest = concat (map (\<lambda>line. line @ nl)
     [''[tool.poetry]'',
      ''name = ""'',
      ''version = ""'',
      ''description = ""'',
      ''license = ""'',
      ''authors = []'',
      ''readme = "README.md"'',
      ''repository = ""'',
      ''keywords = []'',
      ''classifiers = []'',
      [],
      ''[tool.poetry.dependencies]'',
      ''python = ">=3.5"'',
      [],
      ''[tool.poetry.scripts]'',
      [],
      ''[build-system]'',
      ''requires = ["poetry-core"]'',
      ''build-backend = "poetry.core.masonry.api"''])\<close>

section \<open>Properties\<close>

lemmas ast_defs = ast_Load_def ast_Constant_def ast_Name_def ast_List_def ast_Tuple_def
  ast_Attribute_def ast_Subscript_def ast_keyword_def ast_Call_def ast_Expr_def ast_Module_def

lemmas extractor_defs = extract_metadata_from_setup_def and_then_def loop_body_def classify_def
  keywords_value_def merge_author_email_def print_diag_def assign_value_def subscript_def
  format_value_def isspace_def strip_def

subsection \<open>The keywords argument\<close>

text \<open>
  Claim C10. For a setup call whose one keyword is \<open>keywords="a, b, c"\<close>, the
  extractor returns the mapping with \<open>keywords\<close> as the sequence \<open>["a", "b", "c"]\<close>:
  the string is split at the commas and the segments are trimmed. For
  \<open>keywords="a b c"\<close> the split at commas gives one segment, the split at whitespace
  is taken instead, and the extractor returns the same mapping. In a longer call, whatever
  the loop has done before, the iteration for such a keyword stores that sequence.
\<close>

theorem keywords_string_split:
  "extract_metadata_from_setup rp
     (ast_Call f args [ast_keyword (Str ''keywords'') (ast_Constant (Str ''a, b, c''))])
   = Inr ([(''keywords'', ListO [Str ''a'', Str ''b'', Str ''c''])],
          [AddingList ''keywords'' (ListO [Str ''a'', Str ''b'', Str ''c'']),
           MetadataDump [(''keywords'', ListO [Str ''a'', Str ''b'', Str ''c''])]])
   \<and> extract_metadata_from_setup rp
     (ast_Call f args [ast_keyword (Str ''keywords'') (ast_Constant (Str ''a b c''))])
   = Inr ([(''keywords'', ListO [Str ''a'', Str ''b'', Str ''c''])],
          [AddingList ''keywords'' (ListO [Str ''a'', Str ''b'', Str ''c'']),
           MetadataDump [(''keywords'', ListO [Str ''a'', Str ''b'', Str ''c''])]])
   \<and> split_on CHR '','' ''a, b, c'' = [''a'', '' b'', '' c'']
   \<and> split_on CHR '','' ''a b c'' = [''a b c'']
   \<and> split_ws ''a b c'' = [''a'', ''b'', ''c'']
   \<and> (\<exists>st'. loop_body st (ast_keyword (Str ''keywords'') (ast_Constant (Str ''a, b, c''))) = Inr st'
      \<and> map_of (metadata st') ''keywords'' = Some (ListO [Str ''a'', Str ''b'', Str ''c'']))
   \<and> (\<exists>st'. loop_body st (ast_keyword (Str ''keywords'') (ast_Constant (Str ''a b c''))) = Inr st'
      \<and> map_of (metadata st') ''keywords'' = Some (ListO [Str ''a'', Str ''b'', Str ''c'']))"
  by (simp add: ast_defs extractor_defs AList.update_conv')

text \<open>
  Claim C3. A \<open>keywords\<close> argument that is a list or tuple literal is not stored as the
  sequence of its trimmed elements: line 36 reads \<open>keyword.value.value\<close>, a List or Tuple
  node has no field \<open>value\<close>, and the extraction ends in AttributeError. The same literal
  under another name (here \<open>classifiers\<close>) goes through lines 51 to 54 and is stored.
\<close>

theorem keywords_list_literal_raises:
  "loop_body st (ast_keyword (Str ''keywords'') (ast_List elts)) = Inl AttributeError
   \<and> loop_body st (ast_keyword (Str ''keywords'') (ast_Tuple elts)) = Inl AttributeError
   \<and> extract_metadata_from_setup rp
        (ast_Call (ast_Name ''setup'') []
           [ast_keyword (Str ''keywords'')
              (ast_List [ast_Constant (Str ''a''), ast_Constant (Str ''b'')])])
      = Inl AttributeError
   \<and> extract_metadata_from_setup rp
        (ast_Call (ast_Name ''setup'') []
           [ast_keyword (Str ''classifiers'')
              (ast_List [ast_Constant (Str ''a''), ast_Constant (Str ''b'')])])
      = Inr ([(''classifiers'', ListO [Str ''a'', Str ''b''])],
             [AddingList ''classifiers'' (ListO [Str ''a'', Str ''b'']),
              MetadataDump [(''classifiers'', ListO [Str ''a'', Str ''b''])]])"
  by (simp add: ast_defs extractor_defs)

subsection \<open>Values of no recognized shape\<close>

text \<open>
  Claim C1. A keyword whose value has none of the recognized shapes is not left out of
  the mapping. For \<open>setup(name="x", version=get_version())\<close> line 60 stores under
  \<open>version\<close> the value the previous keyword left in \<open>value\<close>; for
  \<open>setup(version=get_version())\<close> the variable is unbound and no mapping is returned.
\<close>

theorem unrecognized_value_not_omitted:
  "extract_metadata_from_setup rp
     (ast_Call (ast_Name ''setup'') []
        [ast_keyword (Str ''name'') (ast_Constant (Str ''x'')),
         ast_keyword (Str ''version'') (ast_Call (ast_Name ''get_version'') [] [])])
   = Inr ([(''name'', Str ''x''), (''version'', Str ''x'')],
          [AddingConstant ''name'' (Str ''x''),
           MetadataDump [(''name'', Str ''x''), (''version'', Str ''x'')]])
   \<and> extract_metadata_from_setup rp
     (ast_Call (ast_Name ''setup'') []
        [ast_keyword (Str ''version'') (ast_Call (ast_Name ''get_version'') [] [])])
   = Inl UnboundLocalError"
  by (simp add: ast_defs extractor_defs)

subsection \<open>The entry point\<close>

text \<open>
  Claim C8. When the argument vector does not have exactly three entries (the program
  name and two positional arguments), the run prints the usage message and exits with
  status 1; it opens no file and leaves the file system as it was.
\<close>

theorem usage_error_exit:
  "length argv \<noteq> 3 \<Longrightarrow>
   main parse rp fs argv = \<lparr>events = [Printed Usage], outcome = Exited 1, files = fs\<rparr>"
  by (simp add: main_def)

theorem usage_error_exit_witness:
  "main (\<lambda>src. Inl SyntaxError) (\<lambda>v. [])
         \<lparr>contents = Map.empty, writable = (\<lambda>p. True)\<rparr> [''py2toml.py'']
     = \<lparr>events = [Printed Usage], outcome = Exited 1,
        files = \<lparr>contents = Map.empty, writable = (\<lambda>p. True)\<rparr>\<rparr>
   \<and> main (\<lambda>src. Inl SyntaxError) (\<lambda>v. [])
         \<lparr>contents = Map.empty, writable = (\<lambda>p. True)\<rparr> [''py2toml.py'', ''setup.py'']
     = \<lparr>events = [Printed Usage], outcome = Exited 1,
        files = \<lparr>contents = Map.empty, writable = (\<lambda>p. True)\<rparr>\<rparr>
   \<and> main (\<lambda>src. Inl SyntaxError) (\<lambda>v. [])
         \<lparr>contents = Map.empty, writable = (\<lambda>p. True)\<rparr>
         [''py2toml.py'', ''setup.py'', ''pyproject.toml'', ''extra'']
     = \<lparr>events = [Printed Usage], outcome = Exited 1,
        files = \<lparr>contents = Map.empty, writable = (\<lambda>p. True)\<rparr>\<rparr>"
  using usage_error_exit [of "[''py2toml.py'']"]
    usage_error_exit [of "[''py2toml.py'', ''setup.py'']"]
    usage_error_exit [of "[''py2toml.py'', ''setup.py'', ''pyproject.toml'', ''extra'']"]
  by simp

subsection \<open>The loop over the keywords\<close>

lemma and_then_Inr_iff:
  "and_then m f = Inr y \<longleftrightarrow> (\<exists>x. m = Inr x \<and> f x = Inr y)"
  by (cases m) (simp_all add: and_then_def)

lemma classify_metadata:
  "classify st a k = Inr st' \<Longrightarrow> metadata st' = metadata st"
  by (auto simp: classify_def and_then_Inr_iff print_diag_def assign_value_def split: if_splits)

text \<open>A keyword with a str name that the loop body survives is stored under its name.\<close>

lemma loop_body_Str:
  assumes "loop_body st k = Inr st'" and "getattr k ''arg'' = Inr (Str a)"
  shows "\<exists>v. map_of (metadata st') = (map_of (metadata st))(a \<mapsto> v)"
proof -
  from assms obtain st1 v where c: "classify st a k = Inr st1" and v: "value_var st1 = Some v"
    and st': "st' = st1\<lparr>metadata := AList.update a v (metadata st1)\<rparr>"
    by (auto simp: loop_body_def and_then_Inr_iff split: option.splits)
  from classify_metadata [OF c] st' show ?thesis
    by (auto simp: AList.update_conv')
qed

lemma loop_body_other:
  assumes "loop_body st k = Inr st'" and "getattr k ''arg'' \<noteq> Inr (Str key)"
  shows "map_of (metadata st') key = map_of (metadata st) key"
proof -
  from assms(1) obtain arg where arg: "getattr k ''arg'' = Inr arg"
    by (auto simp: loop_body_def and_then_Inr_iff)
  show ?thesis
  proof (cases "\<exists>a. arg = Str a")
    case True
    then obtain a where a: "arg = Str a" by blast
    with arg assms(2) have "a \<noteq> key" by auto
    moreover from loop_body_Str [OF assms(1)] arg a
    obtain v where "map_of (metadata st') = (map_of (metadata st))(a \<mapsto> v)" by auto
    ultimately show ?thesis by simp
  next
    case False
    with assms(1) arg have "st' = print_diag st (KeywordNotStr arg)"
      by (cases arg) (auto simp: loop_body_def and_then_def)
    then show ?thesis by (simp add: print_diag_def)
  qed
qed

text \<open>The loop leaves alone every key that no keyword is named after.\<close>

lemma extract_loop_other:
  "extract_loop st ks = Inr st' \<Longrightarrow> \<forall>k\<in>set ks. getattr k ''arg'' \<noteq> Inr (Str key) \<Longrightarrow>
   map_of (metadata st') key = map_of (metadata st) key"
proof (induction ks arbitrary: st)
  case Nil
  then show ?case by simp
next
  case (Cons k ks)
  from Cons.prems(1) obtain st1 where b: "loop_body st k = Inr st1"
    and r: "extract_loop st1 ks = Inr st'"
    by (auto split: sum.splits)
  from Cons.IH [OF r] Cons.prems(2) loop_body_other [OF b] show ?case by simp
qed

text \<open>A loop that ends has stored every keyword name that is a str.\<close>

lemma extract_loop_present:
  "extract_loop st ks = Inr st' \<Longrightarrow> k \<in> set ks \<Longrightarrow> getattr k ''arg'' = Inr (Str key) \<Longrightarrow>
   map_of (metadata st') key \<noteq> None"
proof (induction ks arbitrary: st k)
  case Nil
  then show ?case by simp
next
  case (Cons k' ks)
  from Cons.prems(1) obtain st1 where b: "loop_body st k' = Inr st1"
    and r: "extract_loop st1 ks = Inr st'"
    by (auto split: sum.splits)
  show ?case
  proof (cases "k \<in> set ks")
    case True
    from Cons.IH [OF r True Cons.prems(3)] show ?thesis .
  next
    case False
    with Cons.prems(2) have k: "k' = k" by simp
    from loop_body_Str [OF b] k Cons.prems(3)
    obtain v where st1: "map_of (metadata st1) key = Some v" by auto
    show ?thesis
    proof (cases "\<forall>k\<in>set ks. getattr k ''arg'' \<noteq> Inr (Str key)")
      case True
      from extract_loop_other [OF r True] st1 show ?thesis by simp
    next
      case False
      then obtain k2 where "k2 \<in> set ks" "getattr k2 ''arg'' = Inr (Str key)" by blast
      from Cons.IH [OF r this] show ?thesis .
    qed
  qed
qed




text \<open>
  The general form of what line 60 does to a keyword of no recognized shape: it stores
  the value an earlier keyword left behind, or fails when there is none.
\<close>

lemma loop_body_unrecognized:
  assumes "getattr k ''arg'' = Inr (Str a)" and "getattr k ''value'' = Inr kv"
    and "a \<noteq> ''author''" and "a \<noteq> ''author_email''" and "a \<noteq> ''keywords''"
    and "\<not> isinstance kv ''Constant''" and "\<not> isinstance kv ''List''"
    and "\<not> isinstance kv ''Tuple''" and "\<not> isinstance kv ''Name''"
  shows "loop_body st k =
    (case value_var st of
       None \<Rightarrow> Inl UnboundLocalError
     | Some v \<Rightarrow> Inr (st\<lparr>metadata := AList.update a v (metadata st)\<rparr>))"
  using assms by (simp add: loop_body_def classify_def and_then_def)

subsection \<open>The Author/Email Merger\<close>

lemma merge_author_email_KeyError:
  "map_of (metadata st) ''author_email'' \<noteq> None \<Longrightarrow> map_of (metadata st) ''author'' = None \<Longrightarrow>
   merge_author_email rp st = Inl KeyError"
  by (simp add: merge_author_email_def subscript_def and_then_def)

lemma merge_author_email_mismatch:
  assumes "map_of (metadata st) ''author'' = Some (ListO as)"
    and "map_of (metadata st) ''author_email'' = Some (ListO es)"
    and "length as \<noteq> length es"
  shows "merge_author_email rp st = Inr (print_diag st AuthorCountMismatch)"
  using assms by (simp add: merge_author_email_def subscript_def and_then_def)


text \<open>
  Claim C6. A setup call with a keyword named \<open>author_email\<close> and none named
  \<open>author\<close> never yields a mapping: if the loop over the keywords ends at all, the
  merger's lookup of \<open>author\<close> fails with KeyError.
\<close>

theorem author_email_without_author:
  assumes "getattr setup_node ''keywords'' = Inr (ListO kws)"
    and "\<exists>k\<in>set kws. getattr k ''arg'' = Inr (Str ''author_email'')"
    and "\<forall>k\<in>set kws. getattr k ''arg'' \<noteq> Inr (Str ''author'')"
  shows "(\<exists>e. extract_metadata_from_setup rp setup_node = Inl e)
    \<and> (\<forall>st. extract_loop \<lparr>metadata = [], value_var = None, printed = []\<rparr> kws = Inr st
          \<longrightarrow> extract_metadata_from_setup rp setup_node = Inl KeyError)"
proof -
  let ?init = "\<lparr>metadata = [], value_var = None, printed = []\<rparr>"
  have key: "extract_metadata_from_setup rp setup_node = Inl KeyError"
    if st: "extract_loop ?init kws = Inr st" for st
  proof -
    from assms(2) obtain k where "k \<in> set kws" "getattr k ''arg'' = Inr (Str ''author_email'')"
      by blast
    from extract_loop_present [OF st this] have "map_of (metadata st) ''author_email'' \<noteq> None" .
    moreover from extract_loop_other [OF st assms(3)] have "map_of (metadata st) ''author'' = None"
      by simp
    ultimately have "merge_author_email rp st = Inl KeyError"
      by (rule merge_author_email_KeyError)
    with assms(1) st show ?thesis
      by (simp add: extract_metadata_from_setup_def and_then_def)
  qed
  show ?thesis
  proof (cases "extract_loop ?init kws")
    case (Inl e)
    with assms(1) have "extract_metadata_from_setup rp setup_node = Inl e"
      by (simp add: extract_metadata_from_setup_def and_then_def)
    with Inl show ?thesis by simp
  next
    case (Inr st)
    from key [OF Inr] Inr show ?thesis by simp
  qed
qed

theorem author_email_without_author_witness:
  "extract_metadata_from_setup (\<lambda>v. [])
     (ast_Call (ast_Name ''setup'') []
        [ast_keyword (Str ''author_email'') (ast_Constant (Str ''a@x.com''))])
   = Inl KeyError"
  using author_email_without_author
    [of "ast_Call (ast_Name ''setup'') []
           [ast_keyword (Str ''author_email'') (ast_Constant (Str ''a@x.com''))]"
        "[ast_keyword (Str ''author_email'') (ast_Constant (Str ''a@x.com''))]" "\<lambda>v. []"]
  by (simp add: ast_defs extractor_defs)

text \<open>
  Claim C4. When the loop ends with \<open>author\<close> and \<open>author_email\<close> both present as
  sequences of unequal length, the extraction returns the loop's mapping unchanged (so
  \<open>author\<close> is as parsed) and prints the mismatch diagnostic.
\<close>

theorem author_count_mismatch:
  assumes "getattr setup_node ''keywords'' = Inr (ListO kws)"
    and "extract_loop \<lparr>metadata = [], value_var = None, printed = []\<rparr> kws = Inr st"
    and "map_of (metadata st) ''author'' = Some (ListO as)"
    and "map_of (metadata st) ''author_email'' = Some (ListO es)"
    and "length as \<noteq> length es"
  shows "extract_metadata_from_setup rp setup_node =
           Inr (metadata st, printed st @ [AuthorCountMismatch, MetadataDump (metadata st)])"
  using assms(1,2) merge_author_email_mismatch [OF assms(3-5)]
  by (simp add: extract_metadata_from_setup_def and_then_def print_diag_def)

theorem author_count_mismatch_witness:
  "extract_metadata_from_setup (\<lambda>v. [])
     (ast_Call (ast_Name ''setup'') []
        [ast_keyword (Str ''author'') (ast_Constant (Str ''Alice, Bob'')),
         ast_keyword (Str ''author_email'') (ast_Constant (Str ''a@x.com''))])
   = Inr ([(''author'', ListO [Str ''Alice'', Str ''Bob'']),
           (''author_email'', ListO [Str ''a@x.com''])],
          [AddingList ''author'' (ListO [Str ''Alice'', Str ''Bob'']),
           AddingList ''author_email'' (ListO [Str ''a@x.com'']),
           AuthorCountMismatch,
           MetadataDump [(''author'', ListO [Str ''Alice'', Str ''Bob'']),
                         (''author_email'', ListO [Str ''a@x.com''])]])"
  using author_count_mismatch
    [of "ast_Call (ast_Name ''setup'') []
           [ast_keyword (Str ''author'') (ast_Constant (Str ''Alice, Bob'')),
            ast_keyword (Str ''author_email'') (ast_Constant (Str ''a@x.com''))]"
        "[ast_keyword (Str ''author'') (ast_Constant (Str ''Alice, Bob'')),
          ast_keyword (Str ''author_email'') (ast_Constant (Str ''a@x.com''))]"
        "\<lparr>metadata = [(''author'', ListO [Str ''Alice'', Str ''Bob'']),
                     (''author_email'', ListO [Str ''a@x.com''])],
          value_var = Some (ListO [Str ''a@x.com'']),
          printed = [AddingList ''author'' (ListO [Str ''Alice'', Str ''Bob'']),
                     AddingList ''author_email'' (ListO [Str ''a@x.com''])]\<rparr>"
        "[Str ''Alice'', Str ''Bob'']" "[Str ''a@x.com'']" "\<lambda>v. []"]
  by (simp add: ast_defs extractor_defs)



subsection \<open>Path names and the scripts block\<close>

lemma drop_length_takeWhile_rev:
  "drop (length p - length (takeWhile P (rev p))) p = rev (takeWhile P (rev p))"
proof -
  have "rev (takeWhile P (rev p)) = rev (take (length (takeWhile P (rev p))) (rev p))"
    using takeWhile_eq_take [of P "rev p"] by simp
  also have "\<dots> = drop (length p - length (takeWhile P (rev p))) p"
    by (simp add: rev_take)
  finally show ?thesis by simp
qed

text \<open>The base name is what follows the last slash.\<close>

lemma basename_eq: "basename p = rev (takeWhile (\<lambda>x. x \<noteq> CHR ''/'') (rev p))"
proof -
  have "length (takeWhile (\<lambda>x. x \<noteq> CHR ''/'') (rev p)) \<le> length p"
    using length_takeWhile_le [of _ "rev p"] by simp
  then have "nat (rfind p CHR ''/'' + 1) = length p - length (takeWhile (\<lambda>x. x \<noteq> CHR ''/'') (rev p))"
    by (simp add: rfind_def)
  then show ?thesis
    by (simp add: basename_def drop_length_takeWhile_rev)
qed

lemma basename_no_sep: "CHR ''/'' \<notin> set (basename p)"
  by (auto simp: basename_eq dest: set_takeWhileD)

lemma basename_is_suffix: "\<exists>d. p = d @ basename p \<and> (d = [] \<or> last d = CHR ''/'')"
proof -
  let ?d = "rev (dropWhile (\<lambda>x. x \<noteq> CHR ''/'') (rev p))"
  have "rev p = takeWhile (\<lambda>x. x \<noteq> CHR ''/'') (rev p) @ dropWhile (\<lambda>x. x \<noteq> CHR ''/'') (rev p)"
    by simp
  then have "rev (rev p) = ?d @ basename p"
    unfolding basename_eq by (metis rev_append)
  then have 1: "p = ?d @ basename p" by simp
  have "?d = [] \<or> last ?d = CHR ''/''"
    using hd_dropWhile [of "\<lambda>x. x \<noteq> CHR ''/''" "rev p"]
    by (cases "dropWhile (\<lambda>x. x \<noteq> CHR ''/'') (rev p)") (auto simp: last_rev)
  with 1 show ?thesis by blast
qed

text \<open>The two parts of \<open>splitext\<close> make up the path; the extension is empty or one dot
  and a dotless rest.\<close>

lemma splitext_concat: "fst (splitext p) @ snd (splitext p) = p"
  by (simp add: splitext_def Let_def)

lemma splitext_ext:
  "snd (splitext p) = [] \<or>
   (\<exists>e. snd (splitext p) = CHR ''.'' # e \<and> CHR ''.'' \<notin> set e)"
proof (cases "snd (splitext p) = []")
  case True
  then show ?thesis by simp
next
  case False
  let ?n = "length (takeWhile (\<lambda>x. x \<noteq> CHR ''.'') (rev p))"
  from False have ext: "snd (splitext p) = drop (nat (rfind p CHR ''.'')) p"
    and pos: "rfind p CHR ''/'' < rfind p CHR ''.''"
    by (auto simp: splitext_def Let_def split: if_splits)
  have "- 1 \<le> rfind p CHR ''/''"
    using length_takeWhile_le [of "\<lambda>x. x \<noteq> CHR ''/''" "rev p"] by (simp add: rfind_def)
  with pos have nn: "0 \<le> rfind p CHR ''.''" by simp
  then have lt: "?n < length p" by (simp add: rfind_def)
  then have nat: "nat (rfind p CHR ''.'') = length p - Suc ?n"
    by (simp add: rfind_def)
  from lt have "dropWhile (\<lambda>x. x \<noteq> CHR ''.'') (rev p) \<noteq> []"
    by (metis length_rev takeWhile_eq_all_conv dropWhile_eq_Nil_conv less_irrefl)
  then obtain r where d: "dropWhile (\<lambda>x. x \<noteq> CHR ''.'') (rev p) = CHR ''.'' # r"
    using hd_dropWhile [of "\<lambda>x. x \<noteq> CHR ''.''" "rev p"]
    by (cases "dropWhile (\<lambda>x. x \<noteq> CHR ''.'') (rev p)") auto
  have "rev p = takeWhile (\<lambda>x. x \<noteq> CHR ''.'') (rev p) @ CHR ''.'' # r"
    using d takeWhile_dropWhile_id [of "\<lambda>x. x \<noteq> CHR ''.''" "rev p"] by simp
  then have "take (Suc ?n) (rev p) = takeWhile (\<lambda>x. x \<noteq> CHR ''.'') (rev p) @ [CHR ''.'']"
    by (metis append.assoc append_Cons append_Nil append_eq_conv_conj length_append_singleton)
  then have "drop (length p - Suc ?n) p = CHR ''.'' # rev (takeWhile (\<lambda>x. x \<noteq> CHR ''.'') (rev p))"
    by (metis rev_take rev_rev_ident length_rev rev_append rev.simps(2) rev.simps(1) append_Cons append_Nil)
  with ext nat have "snd (splitext p) = CHR ''.'' # rev (takeWhile (\<lambda>x. x \<noteq> CHR ''.'') (rev p))"
    by simp
  moreover have "CHR ''.'' \<notin> set (rev (takeWhile (\<lambda>x. x \<noteq> CHR ''.'') (rev p)))"
    by (auto dest: set_takeWhileD)
  ultimately show ?thesis by blast
qed

lemma map_err_script_line_Str:
  "map_err (script_line rp) (map Str ss)
   = Inr (map (\<lambda>s. fst (splitext (basename s)) @ '' = '' @ [CHR 0x22] @ s
                  @ ''.__main__:main'' @ [CHR 0x22]) ss)"
  by (induction ss) (simp_all add: script_line_def and_then_def format_value_def)

lemma join_append_sep:
  "xs \<noteq> [] \<Longrightarrow> join sep xs @ sep = concat (map (\<lambda>x. x @ sep) xs)"
  by (induction sep xs rule: join.induct) simp_all

lemma rfind_absent: "c \<notin> set p \<Longrightarrow> rfind p c = - 1"
proof -
  assume "c \<notin> set p"
  then have "takeWhile (\<lambda>x. x \<noteq> c) (rev p) = rev p"
    by (auto simp: takeWhile_eq_all_conv)
  then have "length (takeWhile (\<lambda>x. x \<noteq> c) (rev p)) = length p"
    by (metis length_rev)
  then show ?thesis by (simp only: rfind_def)
qed

lemma basename_of_parts:
  assumes "d = [] \<or> last d = CHR ''/''" and "CHR ''/'' \<notin> set b"
  shows "basename (d @ b) = b"
proof -
  have "takeWhile (\<lambda>x. x \<noteq> CHR ''/'') (rev d) = []"
    using assms(1) by (cases d rule: rev_cases) auto
  moreover have "takeWhile (\<lambda>x. x \<noteq> CHR ''/'') (rev b @ rev d)
                 = rev b @ takeWhile (\<lambda>x. x \<noteq> CHR ''/'') (rev d)"
    using assms(2) by (intro takeWhile_append2) auto
  ultimately show ?thesis by (simp add: basename_eq)
qed

lemma rfind_dot_parts:
  assumes "set dots \<subseteq> {c}" and "c \<notin> set rest"
  shows "rfind (dots @ rest) c = int (length dots) - 1"
proof -
  have "takeWhile (\<lambda>x. x \<noteq> c) (rev dots) = []"
    using assms(1) by (cases dots rule: rev_cases) auto
  moreover have "takeWhile (\<lambda>x. x \<noteq> c) (rev rest @ rev dots)
                 = rev rest @ takeWhile (\<lambda>x. x \<noteq> c) (rev dots)"
    using assms(2) by (intro takeWhile_append2) auto
  ultimately show ?thesis by (simp add: rfind_def)
qed

lemma splitext_no_ext:
  assumes "CHR ''/'' \<notin> set b" and "CHR ''.'' \<notin> set (dropWhile (\<lambda>c. c = CHR ''.'') b)"
  shows "splitext b = (b, [])"
proof -
  let ?dots = "takeWhile (\<lambda>c. c = CHR ''.'') b" and ?rest = "dropWhile (\<lambda>c. c = CHR ''.'') b"
  have b: "b = ?dots @ ?rest" by simp
  have dots: "set ?dots \<subseteq> {CHR ''.''}" by (auto dest: set_takeWhileD)
  have "rfind (?dots @ ?rest) CHR ''.'' = int (length ?dots) - 1"
    using dots assms(2) by (rule rfind_dot_parts)
  then have r: "rfind b CHR ''.'' = int (length ?dots) - 1" by simp
  have "take (length ?dots - 1) (?dots @ ?rest) = take (length ?dots - 1) ?dots"
    by (simp only: take_append) simp
  then have "take (length ?dots - 1) b = take (length ?dots - 1) ?dots"
    by simp
  then have "set (take (length ?dots - 1) b) \<subseteq> {CHR ''.''}"
    using dots by (metis set_take_subset subset_trans)
  then have "\<not> list_ex (\<lambda>x. x \<noteq> CHR ''.'') (take (length ?dots - 1) b)"
    by (auto simp: list_ex_iff)
  moreover have "nat (int (length ?dots) - 1 - (- 1 + 1)) = length ?dots - 1" by simp
  ultimately show ?thesis
    using r rfind_absent [OF assms(1)] by (simp add: splitext_def Let_def)
qed

lemma splitext_ext_parts:
  assumes "CHR ''/'' \<notin> set stem" and "CHR ''/'' \<notin> set x" and "CHR ''.'' \<notin> set x"
    and "\<exists>c\<in>set stem. c \<noteq> CHR ''.''"
  shows "splitext (stem @ CHR ''.'' # x) = (stem, CHR ''.'' # x)"
proof -
  have "rfind ((stem @ [CHR ''.'']) @ x) CHR ''.'' = int (length stem)"
  proof -
    have "takeWhile (\<lambda>c. c \<noteq> CHR ''.'') (rev x @ CHR ''.'' # rev stem) = rev x"
      using assms(3) by (subst takeWhile_append2) auto
    then show ?thesis by (simp add: rfind_def)
  qed
  then have r: "rfind (stem @ CHR ''.'' # x) CHR ''.'' = int (length stem)" by simp
  have s: "rfind (stem @ CHR ''.'' # x) CHR ''/'' = - 1"
    using assms(1,2) by (intro rfind_absent) auto
  from assms(4) have "list_ex (\<lambda>c. c \<noteq> CHR ''.'') stem" by (simp add: list_ex_iff)
  with r s show ?thesis by (simp add: splitext_def Let_def)
qed

lemma join_butlast:
  "join [c] xs = butlast (concat (map (\<lambda>x. x @ [c]) xs))"
proof (cases "xs = []")
  case True
  then show ?thesis by simp
next
  case False
  from join_append_sep [OF False, of "[c]"]
  have "butlast (join [c] xs @ [c]) = butlast (concat (map (\<lambda>x. x @ [c]) xs))" by simp
  then show ?thesis by (simp only: butlast_snoc)
qed

lemma script_key_of_parts:
  assumes "d = [] \<or> last d = CHR ''/''" and "CHR ''/'' \<notin> set stem" and "CHR ''/'' \<notin> set e"
    and "if e = [] then CHR ''.'' \<notin> set (dropWhile (\<lambda>c. c = CHR ''.'') stem)
         else (\<exists>c\<in>set stem. c \<noteq> CHR ''.'') \<and> hd e = CHR ''.'' \<and> CHR ''.'' \<notin> set (tl e)"
  shows "fst (splitext (basename (d @ stem @ e))) = stem"
proof -
  have b: "basename (d @ stem @ e) = stem @ e"
    using assms(1-3) by (intro basename_of_parts) auto
  show ?thesis
  proof (cases "e = []")
    case True
    with assms(2,4) b show ?thesis by (simp add: splitext_no_ext)
  next
    case False
    with assms(4) obtain x where e: "e = CHR ''.'' # x" and x: "CHR ''.'' \<notin> set x"
      and stem: "\<exists>c\<in>set stem. c \<noteq> CHR ''.''"
      by (cases e) auto
    from assms(3) e have "CHR ''/'' \<notin> set x" by simp
    from splitext_ext_parts [OF assms(2) this x stem] b e show ?thesis by simp
  qed
qed

text \<open>
  For a \<open>scripts\<close> field that is a sequence of strings, in the terms of
  \<open>basename\<close> and \<open>splitext\<close>: one line for each entry, joined by newlines.
\<close>

lemma scripts_section_Str:
  \<open>scripts_section rp (ListO (map Str ss))
     = Inr (join nl (map (\<lambda>s. fst (splitext (basename s)) @ '' = "'' @ s @ ''.__main__:main"'') ss))\<close>
  using map_err_script_line_Str [of rp ss]
  by (simp add: scripts_section_def and_then_def)

text \<open>
  Claim C7. Let every entry of the \<open>scripts\<close> field be a string \<open>d @ stem @ e\<close>:
  \<open>d\<close> the directory part (empty, or ending in a slash), \<open>stem @ e\<close> the base file
  name (no slash), and \<open>e\<close> its extension: either empty, when the base name has no dot
  after its leading dots, or the last dot and what follows it, when the stem is more than
  dots. Then the scripts block has one line for each entry, in order and separated by
  newlines: the key \<open>stem\<close>, then \<open> = "\<close>, the entry's text and
  \<open>.__main__:main"\<close>. For \<open>scripts=["bin/mytool"]\<close> it is
  \<open>mytool = "bin/mytool.__main__:main"\<close>.
\<close>

theorem scripts_section_lines:
  assumes \<open>\<forall>(d, stem, e) \<in> set ts.
             (d = [] \<or> last d = CHR ''/'') \<and> CHR ''/'' \<notin> set stem \<and> CHR ''/'' \<notin> set e \<and>
             (if e = [] then CHR ''.'' \<notin> set (dropWhile (\<lambda>c. c = CHR ''.'') stem)
              else (\<exists>c\<in>set stem. c \<noteq> CHR ''.'') \<and> hd e = CHR ''.'' \<and> CHR ''.'' \<notin> set (tl e))\<close>
  shows \<open>scripts_section rp (ListO (map (\<lambda>(d, stem, e). Str (d @ stem @ e)) ts))
         = Inr (butlast (concat (map (\<lambda>(d, stem, e).
                   stem @ '' = "'' @ d @ stem @ e @ ''.__main__:main"'' @ [CHR 0x0A]) ts)))\<close>
proof -
  let ?entry = "\<lambda>(d, stem, e). d @ stem @ e"
  have key: "fst (splitext (basename (?entry t))) = fst (snd t)" if "t \<in> set ts" for t
  proof -
    obtain d stem e where t: "t = (d, stem, e)" by (cases t)
    with that assms show ?thesis by (auto intro!: script_key_of_parts)
  qed
  have eq: "map (\<lambda>(d, stem, e). Str (d @ stem @ e)) ts = map Str (map ?entry ts)"
    by (simp add: split_def comp_def)
  have "scripts_section rp (ListO (map Str (map ?entry ts)))
    = Inr (join nl (map (\<lambda>s. fst (splitext (basename s)) @ '' = '' @ [CHR 0x22] @ s
                  @ ''.__main__:main'' @ [CHR 0x22]) (map ?entry ts)))"
    by (simp only: scripts_section_def and_then_def py_iter.simps sum.case
          map_err_script_line_Str)
  then have "scripts_section rp (ListO (map (\<lambda>(d, stem, e). Str (d @ stem @ e)) ts))
    = Inr (join nl (map (\<lambda>s. fst (splitext (basename s)) @ '' = '' @ [CHR 0x22] @ s
                  @ ''.__main__:main'' @ [CHR 0x22]) (map ?entry ts)))"
    by (simp only: eq)
  also have "map (\<lambda>s. fst (splitext (basename s)) @ '' = '' @ [CHR 0x22] @ s
                  @ ''.__main__:main'' @ [CHR 0x22]) (map ?entry ts)
    = map (\<lambda>t. fst (snd t) @ '' = '' @ [CHR 0x22] @ ?entry t @ ''.__main__:main'' @ [CHR 0x22]) ts"
    using key by (simp add: comp_def)
  finally show ?thesis
    by (simp add: nl_def join_butlast comp_def split_def)
qed

theorem scripts_section_lines_witness:
  \<open>scripts_section (\<lambda>v. []) (ListO [Str ''bin/mytool'', Str ''pkg/cli.py''])
     = Inr (''mytool = "bin/mytool.__main__:main"'' @ [CHR 0x0A]
            @ ''cli = "pkg/cli.py.__main__:main"'')
   \<and> scripts_section (\<lambda>v. []) (ListO [Str ''bin/mytool''])
     = Inr ''mytool = "bin/mytool.__main__:main"''\<close>
  using scripts_section_lines [of "[(''bin/'', ''mytool'', []), (''pkg/'', ''cli'', ''.py'')]" "\<lambda>v. []"]
    scripts_section_lines [of "[(''bin/'', ''mytool'', [])]" "\<lambda>v. []"]
  by simp

subsection \<open>The final replacement\<close>

text \<open>On three newlines, \<open>str.replace\<close> is the pass of the specification.\<close>

lemma str_replace_collapse_pass:
  "str_replace (nl @ nl @ nl) (nl @ nl) s = collapse_pass s"
  by (induction s rule: collapse_pass.induct) (auto simp: nl_def)

lemma collapse_pass_short_run:
  assumes "rest = [] \<or> hd rest \<noteq> CHR 0x0A" and "k < 3"
  shows "collapse_pass (replicate k (CHR 0x0A) @ rest) = replicate k (CHR 0x0A) @ collapse_pass rest"
proof -
  from assms(2) consider "k = 0" | "k = Suc 0" | "k = Suc (Suc 0)" by linarith
  then show ?thesis
  proof cases
    case 1
    then show ?thesis by simp
  next
    case 2
    show ?thesis
    proof (cases rest)
      case Nil
      with 2 show ?thesis by simp
    next
      case (Cons x xs)
      with assms(1) have "x \<noteq> CHR 0x0A" by simp
      with 2 Cons show ?thesis by (cases xs) simp_all
    qed
  next
    case 3
    show ?thesis
    proof (cases rest)
      case Nil
      with 3 show ?thesis by simp
    next
      case (Cons x xs)
      with assms(1) have "x \<noteq> CHR 0x0A" by simp
      with 3 Cons show ?thesis by (cases xs) simp_all
    qed
  qed
qed

text \<open>
  A run of \<open>k\<close> newlines before something that is no newline comes out of the pass
  as \<open>k - k div 3\<close> newlines: six become four, and four is still more than two.
\<close>

lemma div3_step: "Suc (Suc (Suc j)) div 3 = Suc (j div 3)"
proof -
  have "Suc (Suc (Suc j)) = j + 3" by simp
  then have "Suc (Suc (Suc j)) div 3 = (j + 3) div 3" by (rule arg_cong)
  also have "\<dots> = j div 3 + 1" by (rule div_add_self2) simp
  finally show ?thesis by simp
qed

lemma collapse_pass_run:
  assumes "rest = [] \<or> hd rest \<noteq> CHR 0x0A"
  shows "collapse_pass (replicate k (CHR 0x0A) @ rest)
         = replicate (k - k div 3) (CHR 0x0A) @ collapse_pass rest"
proof (induction k rule: less_induct)
  case (less k)
  show ?case
  proof (cases "k < 3")
    case True
    then have "k div 3 = 0" by simp
    with collapse_pass_short_run [OF assms True] show ?thesis by simp
  next
    case False
    then have "k = Suc (Suc (Suc (k - 3)))" by simp
    then obtain j where k: "k = Suc (Suc (Suc j))" ..
    then have "j < k" by simp
    from less.IH [OF this]
    have step: "collapse_pass (replicate k (CHR 0x0A) @ rest)
          = CHR 0x0A # CHR 0x0A # replicate (j - j div 3) (CHR 0x0A) @ collapse_pass rest"
      by (simp add: k)
    have "j div 3 \<le> j" by simp
    then have "k - k div 3 = Suc (Suc (j - j div 3))"
      by (simp add: k div3_step)
    with step show ?thesis by simp
  qed
qed

text \<open>
  Claim C9. For every mapping the renderer returns the filled template after one pass
  that turns three newlines into two, or the exception the filling raised. The pass is
  not repeated: a classifier with six newlines in a row is rendered with four, which a
  second pass would shorten again.
\<close>

theorem generate_single_pass:
  "generate_pyproject_toml rp md
     = (case fill_template rp md of Inl e \<Rightarrow> Inl e | Inr t \<Rightarrow> Inr (collapse_pass t))
   \<and> (\<exists>t. generate_pyproject_toml rp
             [(''classifiers'', ListO [Str (''a'' @ nl @ nl @ nl @ nl @ nl @ nl @ ''b'')])] = Inr t
        \<and> collapse_pass t \<noteq> t)"
  apply (simp add: generate_pyproject_toml_def and_then_def str_replace_collapse_pass
      split: sum.splits)
  apply (simp add: fill_template_def render_classifiers_def dict_get_def
      generate_dependency_section_def scripts_section_def and_then_def format_value_def nl_def)
  done

subsection \<open>A source file without a setup call\<close>

lemma generate_empty_mapping: "generate_pyproject_toml rp [] = Inr empty_manifest"
  by (simp add: generate_pyproject_toml_def fill_template_def render_classifiers_def
      dict_get_def generate_dependency_section_def scripts_section_def and_then_def
      format_value_def nl_def empty_manifest_def)

text \<open>
  When the callee of every call in the tree is a plain name or an attribute access and
  none is named \<open>setup\<close>, the walker returns None, the parse step reports it and the
  run writes the manifest of the empty mapping.
\<close>

lemma find_setup_in_none:
  "list_all (\<lambda>n. \<not> isinstance n ''Call'' \<or> callee_is_setup n = Inr False) ns \<Longrightarrow>
   find_setup_in ns = Inr NoneO"
  by (induction ns) auto

lemma parse_setup_py_no_setup:
  assumes "contents fs path = Some src" and "parse src = Inr tree"
    and "list_all (\<lambda>n. \<not> isinstance n ''Call'' \<or> callee_is_setup n = Inr False) (walk tree)"
  shows "parse_setup_py parse rp fs path = Inr ([], [SetupNotFound])"
  using assms(1,2) find_setup_in_none [OF assms(3)]
  by (simp add: parse_setup_py_def find_setup_function_def and_then_def)

lemma main_no_setup:
  assumes "contents fs src_path = Some src" and "parse src = Inr tree"
    and "list_all (\<lambda>n. \<not> isinstance n ''Call'' \<or> callee_is_setup n = Inr False) (walk tree)"
    and "writable fs out_path"
  shows "main parse rp fs [prog, src_path, out_path] =
     \<lparr>events = [OpenedForReading src_path, Printed SetupNotFound, Wrote out_path empty_manifest,
                Printed (ConversionComplete out_path)],
      outcome = Returned,
      files = fs\<lparr>contents := (contents fs)(out_path \<mapsto> empty_manifest)\<rparr>\<rparr>"
  using parse_setup_py_no_setup [of fs src_path src parse tree rp, OF assms(1-3)] assms(4)
  by (simp add: main_def generate_empty_mapping write_to_file_def Let_def)

text \<open>
  Claim C2. A parseable source file with no call named \<open>setup\<close> can make the pipeline
  raise. In the file \<open>hooks[0]()\<close> the callee of the one call is a Subscript node: it
  has no \<open>id\<close>, the handler of line 19 reads its \<open>attr\<close>, which it has not either, and
  the AttributeError ends the run before anything is written.
\<close>

theorem no_setup_call_raises:
  "find_setup_function
     (ast_Module [ast_Expr (ast_Call (ast_Subscript (ast_Name ''hooks'') (ast_Constant (IntO 0))) [] [])])
   = Inl AttributeError
   \<and> main (\<lambda>src. if src = ''hooks[0]()'' then
                    Inr (ast_Module [ast_Expr (ast_Call (ast_Subscript (ast_Name ''hooks'')
                                                  (ast_Constant (IntO 0))) [] [])])
                  else Inl SyntaxError)
        rp \<lparr>contents = Map.empty(''setup.py'' \<mapsto> ''hooks[0]()''), writable = w\<rparr>
        [''py2toml.py'', ''setup.py'', ''pyproject.toml'']
     = \<lparr>events = [OpenedForReading ''setup.py''], outcome = Raised AttributeError,
        files = \<lparr>contents = Map.empty(''setup.py'' \<mapsto> ''hooks[0]()''), writable = w\<rparr>\<rparr>"
  by (simp add: main_def parse_setup_py_def parse_setup_py_printed_def find_setup_function_def
      walk_def callee_is_setup_def and_then_def ast_defs Let_def)

subsection \<open>Runs that end in an exception\<close>

text \<open>
  What was printed before an exception is part of the run: for
  \<open>setup(name="x", keywords=["a"])\<close> the message for \<open>name\<close> is out before the
  \<open>keywords\<close> argument raises.
\<close>

lemma main_raises_after_printing:
  "main (\<lambda>src. Inr (ast_Module [ast_Expr (ast_Call (ast_Name ''setup'') []
            [ast_keyword (Str ''name'') (ast_Constant (Str ''x'')),
             ast_keyword (Str ''keywords'') (ast_List [ast_Constant (Str ''a'')])])]))
     rp \<lparr>contents = Map.empty(''setup.py'' \<mapsto> src), writable = w\<rparr>
     [''py2toml.py'', ''setup.py'', ''pyproject.toml'']
   = \<lparr>events = [OpenedForReading ''setup.py'', Printed (AddingConstant ''name'' (Str ''x''))],
      outcome = Raised AttributeError,
      files = \<lparr>contents = Map.empty(''setup.py'' \<mapsto> src), writable = w\<rparr>\<rparr>"
  by (simp add: main_def parse_setup_py_def parse_setup_py_printed_def extract_printed_def
      find_setup_function_def walk_def callee_is_setup_def ast_defs extractor_defs Let_def)

text \<open>A destination that cannot be opened for writing ends the run after the rendering.\<close>

lemma main_unwritable_destination:
  assumes "contents fs src_path = Some src" and "parse src = Inr tree"
    and "list_all (\<lambda>n. \<not> isinstance n ''Call'' \<or> callee_is_setup n = Inr False) (walk tree)"
    and "\<not> writable fs out_path"
  shows "main parse rp fs [prog, src_path, out_path] =
     \<lparr>events = [OpenedForReading src_path, Printed SetupNotFound],
      outcome = Raised OSError, files = fs\<rparr>"
  using parse_setup_py_no_setup [of fs src_path src parse tree rp, OF assms(1-3)] assms(4)
  by (simp add: main_def generate_empty_mapping write_to_file_def Let_def)

end
